theory Spec2Isabelle
  imports Main "HOL-Library.Word" "HOL-Library.Signed_Division"
begin

unbundle bit_operations_syntax

section \<open>x86.h of xv6: the trap frame and the instruction wrappers\<close>

text \<open>
  The header \<^verbatim>\<open>x86.h\<close> holds two things: \<^verbatim>\<open>struct trapframe\<close>, a plain C record
  of \<^verbatim>\<open>uint\<close> and \<^verbatim>\<open>ushort\<close> fields, and a set of \<^verbatim>\<open>static inline\<close> functions, each
  wrapping one x86 instruction (or one \<^verbatim>\<open>rep\<close>-prefixed instruction). The struct is
  embedded as the list of its declarations, with the i386 layout rule computing offsets;
  the wrappers are embedded as functions on an explicit machine state, the instruction
  inside each \<^verbatim>\<open>asm\<close> statement written out as what it does to that state.
\<close>

type_synonym u8 = "8 word"
type_synonym u16 = "16 word"
type_synonym u32 = "32 word"

subsection \<open>struct trapframe\<close>

text \<open>
  Modelled from the spec: the typedefs \<^verbatim>\<open>uint\<close> and \<^verbatim>\<open>ushort\<close>, which \<^verbatim>\<open>x86.h\<close>
  uses and xv6's \<^verbatim>\<open>types.h\<close> declares. The spec gives the registers, the trap number,
  the error code and the saved pointers as 32-bit values and the segment selectors and
  their paddings as 16-bit halves of a 32-bit slot: \<^verbatim>\<open>uint\<close> is \<^verbatim>\<open>unsigned int\<close>, 4
  bytes, and \<^verbatim>\<open>ushort\<close> is \<^verbatim>\<open>unsigned short\<close>, 2 bytes, each aligned to its own
  size as on i386.
\<close>

datatype ctype = UInt | UShort

fun sizeof_ctype :: "ctype \<Rightarrow> nat" where
  "sizeof_ctype UInt = 4"
| "sizeof_ctype UShort = 2"

fun alignof_ctype :: "ctype \<Rightarrow> nat" where
  "alignof_ctype UInt = 4"
| "alignof_ctype UShort = 2"

type_synonym field = "string \<times> ctype"

text \<open>The declarations of the struct, in source order, cut where the source's comments cut.\<close>

definition trapframe_pusha :: "field list" where
  \<comment> \<open>registers as pushed by pusha\<close>
  "trapframe_pusha =
    [(''edi'', UInt), (''esi'', UInt), (''ebp'', UInt), (''oesp'', UInt),
     (''ebx'', UInt), (''edx'', UInt), (''ecx'', UInt), (''eax'', UInt)]"

definition trapframe_ignored :: "string list" where
  \<comment> \<open>the one field the source comments as useless and ignored\<close>
  "trapframe_ignored = [''oesp'']"

definition trapframe_rest :: "field list" where
  \<comment> \<open>rest of trap frame\<close>
  "trapframe_rest =
    [(''gs'', UShort), (''padding1'', UShort), (''fs'', UShort), (''padding2'', UShort),
     (''es'', UShort), (''padding3'', UShort), (''ds'', UShort), (''padding4'', UShort),
     (''trapno'', UInt)]"

definition trapframe_hw :: "field list" where
  \<comment> \<open>below here defined by x86 hardware\<close>
  "trapframe_hw =
    [(''err'', UInt), (''eip'', UInt), (''cs'', UShort), (''padding5'', UShort),
     (''eflags'', UInt)]"

definition trapframe_ring :: "field list" where
  \<comment> \<open>below here only when crossing rings, such as from user to kernel\<close>
  "trapframe_ring = [(''esp'', UInt), (''ss'', UShort), (''padding6'', UShort)]"

definition trapframe :: "field list" where
  "trapframe = trapframe_pusha @ trapframe_rest @ trapframe_hw @ trapframe_ring"

text \<open>
  The layout of a C struct: every member goes to the first offset at or after the end of
  the previous one that is a multiple of its alignment.
\<close>

definition align_up :: "nat \<Rightarrow> nat \<Rightarrow> nat" where
  "align_up n a = ((n + a - 1) div a) * a"

fun layout :: "nat \<Rightarrow> field list \<Rightarrow> (string \<times> nat \<times> nat) list" where
  "layout off [] = []"
| "layout off ((n, t) # fs) =
     (let at = align_up off (alignof_ctype t)
      in (n, at, sizeof_ctype t) # layout (at + sizeof_ctype t) fs)"

definition offsetof :: "field list \<Rightarrow> string \<Rightarrow> nat option" where
  "offsetof fs n = map_option fst (map_of (layout 0 fs) n)"

definition field_size :: "field list \<Rightarrow> string \<Rightarrow> nat option" where
  "field_size fs n = map_option snd (map_of (layout 0 fs) n)"

text \<open>
  The size of the struct: the end of its last member, rounded up to the largest alignment
  among the members.
\<close>

fun layout_end :: "nat \<Rightarrow> field list \<Rightarrow> nat" where
  "layout_end off [] = off"
| "layout_end off ((n, t) # fs) =
     layout_end (align_up off (alignof_ctype t) + sizeof_ctype t) fs"

definition struct_align :: "field list \<Rightarrow> nat" where
  "struct_align fs = foldr (\<lambda>(n, t) a. max (alignof_ctype t) a) fs 1"

definition struct_size :: "field list \<Rightarrow> nat" where
  "struct_size fs = align_up (layout_end 0 fs) (struct_align fs)"

text \<open>The members found between two byte offsets, with their offsets and sizes.\<close>

definition members_between :: "field list \<Rightarrow> nat \<Rightarrow> nat \<Rightarrow> (string \<times> nat \<times> nat) list" where
  "members_between fs lo hi = filter (\<lambda>(n, at, sz). lo \<le> at \<and> at < hi) (layout 0 fs)"

subsection \<open>The machine state the wrappers act on\<close>

text \<open>
  Memory is byte addressed by 32-bit addresses; a double word lies in four consecutive
  bytes, least significant first. Of the processor, the state keeps what the wrappers of
  this header read or write: the flags register, the two descriptor-table registers, and
  the sequence of double words written to I/O ports.
\<close>

type_synonym memory = "u32 \<Rightarrow> u8"

record machine =
  mem :: memory
  eflags :: u32
  gdtr :: "u16 \<times> u32"
  idtr :: "u16 \<times> u32"
  outlog :: "(u16 \<times> u32) list"

text \<open>Bits of the flags register: interrupt enable, direction, resume, virtual-8086.\<close>

definition FL_IF :: u32 where "FL_IF = 0x200"
definition FL_DF :: u32 where "FL_DF = 0x400"
definition FL_RF :: u32 where "FL_RF = 0x10000"
definition FL_VM :: u32 where "FL_VM = 0x20000"

definition byte_of :: "u32 \<Rightarrow> nat \<Rightarrow> u8" where
  "byte_of w k = ucast (drop_bit (8 * k) w)"

definition load32 :: "memory \<Rightarrow> u32 \<Rightarrow> u32" where
  "load32 m a =
     ucast (m a) OR push_bit 8 (ucast (m (a + 1))) OR push_bit 16 (ucast (m (a + 2)))
       OR push_bit 24 (ucast (m (a + 3)))"

definition store32 :: "memory \<Rightarrow> u32 \<Rightarrow> u32 \<Rightarrow> memory" where
  "store32 m a w =
     m(a := byte_of w 0, a + 1 := byte_of w 1, a + 2 := byte_of w 2, a + 3 := byte_of w 3)"

text \<open>A state to run the wrappers on: memory all zero, interrupts disabled.\<close>

definition machine0 :: machine where
  "machine0 = \<lparr>mem = (\<lambda>a. 0), eflags = 2, gdtr = (0, 0), idtr = (0, 0), outlog = []\<rparr>"

subsection \<open>String instructions: outsl, stosb, stosl\<close>

text \<open>
  \<^verbatim>\<open>cld\<close> clears the direction flag. A string instruction then moves its pointer
  register up by the operand size after every element (down, were the flag set), and the
  \<^verbatim>\<open>rep\<close> prefix repeats it while \<^verbatim>\<open>ecx\<close>, read as an unsigned count, is not zero,
  decrementing \<^verbatim>\<open>ecx\<close> each time.
\<close>

definition cld :: "machine \<Rightarrow> machine" where
  "cld s = s\<lparr>eflags := eflags s AND NOT FL_DF\<rparr>"

definition advance :: "machine \<Rightarrow> u32 \<Rightarrow> u32 \<Rightarrow> u32" where
  "advance s p n = (if eflags s AND FL_DF = 0 then p + n else p - n)"

text \<open>\<^verbatim>\<open>rep outsl\<close>: the double word at \<^verbatim>\<open>esi\<close> goes to port \<^verbatim>\<open>dx\<close>.\<close>

function rep_outsl :: "u16 \<Rightarrow> u32 \<Rightarrow> u32 \<Rightarrow> machine \<Rightarrow> machine \<times> u32 \<times> u32" where
  "rep_outsl dx esi ecx s =
     (if ecx = 0 then (s, esi, ecx)
      else rep_outsl dx (advance s esi 4) (ecx - 1)
             (s\<lparr>outlog := outlog s @ [(dx, load32 (mem s) esi)]\<rparr>))"
  by pat_completeness auto
termination
  by (relation "measure (\<lambda>(dx, esi, ecx, s). unat ecx)") (auto simp: unat_minus_one unat_gt_0)

text \<open>\<^verbatim>\<open>rep stosb\<close>: \<^verbatim>\<open>al\<close> goes to the byte at \<^verbatim>\<open>edi\<close>.\<close>

function rep_stosb :: "u8 \<Rightarrow> u32 \<Rightarrow> u32 \<Rightarrow> machine \<Rightarrow> machine \<times> u32 \<times> u32" where
  "rep_stosb al edi ecx s =
     (if ecx = 0 then (s, edi, ecx)
      else rep_stosb al (advance s edi 1) (ecx - 1) (s\<lparr>mem := (mem s)(edi := al)\<rparr>))"
  by pat_completeness auto
termination
  by (relation "measure (\<lambda>(al, edi, ecx, s). unat ecx)") (auto simp: unat_minus_one unat_gt_0)

text \<open>\<^verbatim>\<open>rep stosl\<close>: \<^verbatim>\<open>eax\<close> goes to the double word at \<^verbatim>\<open>edi\<close>.\<close>

function rep_stosl :: "u32 \<Rightarrow> u32 \<Rightarrow> u32 \<Rightarrow> machine \<Rightarrow> machine \<times> u32 \<times> u32" where
  "rep_stosl eax edi ecx s =
     (if ecx = 0 then (s, edi, ecx)
      else rep_stosl eax (advance s edi 4) (ecx - 1) (s\<lparr>mem := store32 (mem s) edi eax\<rparr>))"
  by pat_completeness auto
termination
  by (relation "measure (\<lambda>(eax, edi, ecx, s). unat ecx)") (auto simp: unat_minus_one unat_gt_0)

declare rep_outsl.simps [simp del] rep_stosb.simps [simp del] rep_stosl.simps [simp del]

text \<open>
  The wrappers. Their \<^verbatim>\<open>int\<close> and pointer arguments are 32-bit words; the operand
  constraints put \<^verbatim>\<open>port\<close> in \<^verbatim>\<open>edx\<close> (the instruction uses its low half
  \<^verbatim>\<open>dx\<close>), \<^verbatim>\<open>addr\<close> in \<^verbatim>\<open>esi\<close> or \<^verbatim>\<open>edi\<close>, \<^verbatim>\<open>cnt\<close> in \<^verbatim>\<open>ecx\<close> and
  \<^verbatim>\<open>data\<close> in \<^verbatim>\<open>eax\<close> (\<^verbatim>\<open>stosb\<close> stores its low byte \<^verbatim>\<open>al\<close>). The final pointer
  and count come back in the wrapper's own copies of \<^verbatim>\<open>addr\<close> and \<^verbatim>\<open>cnt\<close>, which
  it drops on return.
\<close>

definition outsl :: "u32 \<Rightarrow> u32 \<Rightarrow> u32 \<Rightarrow> machine \<Rightarrow> machine" where
  "outsl port addr cnt s = fst (rep_outsl (ucast port) addr cnt (cld s))"

definition stosb :: "u32 \<Rightarrow> u32 \<Rightarrow> u32 \<Rightarrow> machine \<Rightarrow> machine" where
  "stosb addr data cnt s = fst (rep_stosb (ucast data) addr cnt (cld s))"

definition stosl :: "u32 \<Rightarrow> u32 \<Rightarrow> u32 \<Rightarrow> machine \<Rightarrow> machine" where
  "stosl addr data cnt s = fst (rep_stosl data addr cnt (cld s))"

text \<open>
  Memory after a fill, stated without the loop: a byte is overwritten when its distance
  from the start, counted upwards modulo \<open>2 ^ 32\<close>, is below the number of bytes
  written; a double-word fill puts there the byte of \<^verbatim>\<open>eax\<close> that the distance
  modulo 4 selects.
\<close>

definition filled :: "memory \<Rightarrow> u32 \<Rightarrow> u32 \<Rightarrow> u8 \<Rightarrow> memory" where
  "filled m edi ecx al = (\<lambda>a. if a - edi < ecx then al else m a)"

definition filled4 :: "memory \<Rightarrow> u32 \<Rightarrow> u32 \<Rightarrow> u32 \<Rightarrow> memory" where
  "filled4 m edi ecx eax =
     (\<lambda>a. if unat (a - edi) < 4 * unat ecx then byte_of eax (unat (a - edi) mod 4) else m a)"

subsection \<open>lgdt and lidt\<close>

text \<open>
  Both functions fill a local array \<^verbatim>\<open>ushort pd[3]\<close> with the same three assignments,
  each converting its 32-bit right-hand side to 16 bits, and hand its address to the
  instruction, which reads the six bytes as a 16-bit limit followed by a 32-bit base.
\<close>

definition pd_array :: "u32 \<Rightarrow> u32 \<Rightarrow> u16 list" where
  "pd_array p sz = [ucast (sz - 1), ucast p, ucast (drop_bit 16 p)]"

definition pseudo_descriptor :: "u16 list \<Rightarrow> u16 \<times> u32" where
  "pseudo_descriptor pd = (pd ! 0, ucast (pd ! 1) OR push_bit 16 (ucast (pd ! 2)))"

definition lgdt :: "u32 \<Rightarrow> u32 \<Rightarrow> machine \<Rightarrow> machine" where
  "lgdt p sz s = s\<lparr>gdtr := pseudo_descriptor (pd_array p sz)\<rparr>"

definition lidt :: "u32 \<Rightarrow> u32 \<Rightarrow> machine \<Rightarrow> machine" where
  "lidt p sz s = s\<lparr>idtr := pseudo_descriptor (pd_array p sz)\<rparr>"

subsection \<open>readeflags, cli, sti, xchg\<close>

text \<open>
  \<^verbatim>\<open>pushfl; popl\<close> yields the flags register with the resume and virtual-8086 bits
  cleared in the pushed image. \<^verbatim>\<open>cli\<close> clears and \<^verbatim>\<open>sti\<close> sets the interrupt-enable
  bit; the kernel runs them at privilege level 0, where neither can fault.
\<close>

definition readeflags :: "machine \<Rightarrow> u32" where
  "readeflags s = eflags s AND NOT FL_VM AND NOT FL_RF"

definition cli :: "machine \<Rightarrow> machine" where
  "cli s = s\<lparr>eflags := eflags s AND NOT FL_IF\<rparr>"

definition sti :: "machine \<Rightarrow> machine" where
  "sti s = s\<lparr>eflags := eflags s OR FL_IF\<rparr>"

text \<open>
  \<^verbatim>\<open>lock; xchgl\<close> swaps \<^verbatim>\<open>eax\<close>, loaded with \<^verbatim>\<open>newval\<close>, with the double word at
  \<^verbatim>\<open>addr\<close>, and changes no flag; the function returns what \<^verbatim>\<open>eax\<close> then holds.
\<close>

definition xchg :: "u32 \<Rightarrow> u32 \<Rightarrow> machine \<Rightarrow> u32 \<times> machine" where
  "xchg addr newval s = (load32 (mem s) addr, s\<lparr>mem := store32 (mem s) addr newval\<rparr>)"

section \<open>Properties\<close>

subsection \<open>The layout\<close>

lemma layout_trapframe:
  "layout 0 trapframe =
    [(''edi'', 0, 4), (''esi'', 4, 4), (''ebp'', 8, 4), (''oesp'', 12, 4),
     (''ebx'', 16, 4), (''edx'', 20, 4), (''ecx'', 24, 4), (''eax'', 28, 4),
     (''gs'', 32, 2), (''padding1'', 34, 2), (''fs'', 36, 2), (''padding2'', 38, 2),
     (''es'', 40, 2), (''padding3'', 42, 2), (''ds'', 44, 2), (''padding4'', 46, 2),
     (''trapno'', 48, 4), (''err'', 52, 4), (''eip'', 56, 4),
     (''cs'', 60, 2), (''padding5'', 62, 2), (''eflags'', 64, 4),
     (''esp'', 68, 4), (''ss'', 72, 2), (''padding6'', 74, 2)]"
  by code_simp

lemma layout_pusha:
  "layout 0 trapframe_pusha =
    [(''edi'', 0, 4), (''esi'', 4, 4), (''ebp'', 8, 4), (''oesp'', 12, 4),
     (''ebx'', 16, 4), (''edx'', 20, 4), (''ecx'', 24, 4), (''eax'', 28, 4)]"
  by code_simp

lemma size_trapframe: "struct_size trapframe = 76"
  by (simp add: struct_size_def struct_align_def trapframe_def trapframe_pusha_def
      trapframe_rest_def trapframe_hw_def trapframe_ring_def align_up_def)

lemma size_pusha: "struct_size trapframe_pusha = 32"
  by (simp add: struct_size_def struct_align_def trapframe_pusha_def align_up_def)

lemma layout_selectors:
  "layout 32 (butlast trapframe_rest) =
     [(''gs'', 32, 2), (''padding1'', 34, 2), (''fs'', 36, 2), (''padding2'', 38, 2),
      (''es'', 40, 2), (''padding3'', 42, 2), (''ds'', 44, 2), (''padding4'', 46, 2)]"
  by code_simp

lemma length_pusha: "length trapframe_pusha = 8"
  by (simp add: trapframe_pusha_def)

subsection \<open>Memory and the string instructions\<close>

lemma load32_store32: "load32 (store32 m a w) a = w"
  apply (simp add: load32_def store32_def byte_of_def)
  apply (rule bit_word_eqI)
  subgoal for n
    apply (cases "n < 8"; cases "n < 16"; cases "n < 24")
    apply (auto simp add: bit_simps)
    done
  done

lemma word_pred_less: "x \<noteq> 0 \<Longrightarrow> c \<noteq> 0 \<Longrightarrow> (x - 1 < c - 1) = (x < (c::u32))"
proof -
  assume "x \<noteq> 0" "c \<noteq> 0"
  then have "unat x \<noteq> 0" "unat c \<noteq> 0" by (simp_all add: unat_eq_0)
  then show ?thesis
    using \<open>x \<noteq> 0\<close> \<open>c \<noteq> 0\<close> by (simp add: word_less_nat_alt unat_minus_one) arith
qed

lemma filled_0: "filled m edi 0 al = m"
  by (simp add: filled_def)

lemma filled_step:
  assumes "ecx \<noteq> 0"
  shows "filled (m(edi := al)) (edi + 1) (ecx - 1) al = filled m edi ecx al"
proof
  fix a
  show "filled (m(edi := al)) (edi + 1) (ecx - 1) al a = filled m edi ecx al a"
  proof (cases "a = edi")
    case True
    then show ?thesis using assms by (simp add: filled_def word_greater_zero_iff)
  next
    case ne: False
    then have "a - edi \<noteq> 0" by simp
    then have "(a - edi - 1 < ecx - 1) = (a - edi < ecx)" using assms by (rule word_pred_less)
    then show ?thesis using ne by (simp add: filled_def diff_diff_eq)
  qed
qed

lemma rep_stosb_mem:
  "eflags s AND FL_DF = 0 \<Longrightarrow>
   rep_stosb al edi ecx s = (s\<lparr>mem := filled (mem s) edi ecx al\<rparr>, edi + ecx, 0)"
proof (induction al edi ecx s rule: rep_stosb.induct)
  case (1 al edi ecx s)
  show ?case
  proof (cases "ecx = 0")
    case True
    then show ?thesis by (subst rep_stosb.simps) (simp add: filled_0)
  next
    case False
    let ?s' = "s\<lparr>mem := (mem s)(edi := al)\<rparr>"
    have df: "eflags ?s' AND FL_DF = 0" using "1.prems" by simp
    have adv: "advance s edi 1 = edi + 1" using "1.prems" by (simp add: advance_def)
    have "rep_stosb al edi ecx s = rep_stosb al (advance s edi 1) (ecx - 1) ?s'"
      by (subst rep_stosb.simps) (simp only: False if_False)
    also have "\<dots> = (?s'\<lparr>mem := filled (mem ?s') (edi + 1) (ecx - 1) al\<rparr>, edi + 1 + (ecx - 1), 0)"
      using "1.IH"[OF False df] by (simp only: adv)
    also have "mem ?s' = (mem s)(edi := al)" by simp
    also have "filled ((mem s)(edi := al)) (edi + 1) (ecx - 1) al = filled (mem s) edi ecx al"
      using False by (rule filled_step)
    finally show ?thesis by simp
  qed
qed

lemma store32_apply:
  "store32 m e w a =
     (if a - e = 3 then byte_of w 3 else if a - e = 2 then byte_of w 2
      else if a - e = 1 then byte_of w 1 else if a - e = 0 then byte_of w 0 else m a)"
proof -
  have "(a = e + k) = (a - e = k)" for k by auto
  then show ?thesis by (simp add: store32_def)
qed

lemma filled4_0: "filled4 m edi 0 eax = m"
  by (simp add: filled4_def)

lemma unat_sub4:
  "unat (x - 4 :: u32) = (if 4 \<le> unat x then unat x - 4 else unat x + 4294967292)"
  by (simp add: unat_sub_if' )

lemma small_cases: "unat (x::u32) < 4 \<Longrightarrow> x = 0 \<or> x = 1 \<or> x = 2 \<or> x = 3"
proof -
  assume "unat x < 4"
  then have "unat x = 0 \<or> unat x = 1 \<or> unat x = 2 \<or> unat x = 3" by arith
  then show ?thesis by (auto simp: word_unat_eq_iff)
qed

lemma filled4_step:
  assumes "ecx \<noteq> 0"
  shows "filled4 (store32 m edi eax) (edi + 4) (ecx - 1) eax = filled4 m edi ecx eax"
proof
  fix a
  define x where "x = a - edi"
  have c: "unat (ecx - 1) = unat ecx - 1" "0 < unat ecx"
    using assms by (simp_all add: unat_minus_one unat_gt_0)
  have sub: "a - (edi + 4) = x - 4" by (simp add: x_def diff_diff_eq)
  show "filled4 (store32 m edi eax) (edi + 4) (ecx - 1) eax a = filled4 m edi ecx eax a"
  proof (cases "unat x < 4")
    case True
    then have "x = 0 \<or> x = 1 \<or> x = 2 \<or> x = 3" by (rule small_cases)
    then show ?thesis
      using c unfolding filled4_def store32_apply sub x_def[symmetric] unat_sub4 c
      by (elim disjE) simp_all
  next
    case False
    then have "x \<noteq> 0" "x \<noteq> 1" "x \<noteq> 2" "x \<noteq> 3" by auto
    moreover have "(unat x - 4) mod 4 = unat x mod 4" using False by (simp add: not_less le_mod_geq)
    moreover have "(unat x - 4 < 4 * (unat ecx - 1)) = (unat x < 4 * unat ecx)" using False c by arith
    ultimately show ?thesis
      using False unfolding filled4_def store32_apply sub x_def[symmetric] unat_sub4 c
      by simp
  qed
qed

lemma rep_stosl_mem:
  "eflags s AND FL_DF = 0 \<Longrightarrow>
   rep_stosl eax edi ecx s = (s\<lparr>mem := filled4 (mem s) edi ecx eax\<rparr>, edi + 4 * ecx, 0)"
proof (induction eax edi ecx s rule: rep_stosl.induct)
  case (1 eax edi ecx s)
  show ?case
  proof (cases "ecx = 0")
    case True
    then show ?thesis by (subst rep_stosl.simps) (simp add: filled4_0)
  next
    case False
    let ?s' = "s\<lparr>mem := store32 (mem s) edi eax\<rparr>"
    have df: "eflags ?s' AND FL_DF = 0" using "1.prems" by simp
    have adv: "advance s edi 4 = edi + 4" using "1.prems" by (simp add: advance_def)
    have "rep_stosl eax edi ecx s = rep_stosl eax (advance s edi 4) (ecx - 1) ?s'"
      by (subst rep_stosl.simps) (simp only: False if_False)
    also have "\<dots> = (?s'\<lparr>mem := filled4 (mem ?s') (edi + 4) (ecx - 1) eax\<rparr>, edi + 4 + 4 * (ecx - 1), 0)"
      using "1.IH"[OF False df] by (simp only: adv)
    also have "mem ?s' = store32 (mem s) edi eax" by simp
    also have "filled4 (store32 (mem s) edi eax) (edi + 4) (ecx - 1) eax = filled4 (mem s) edi ecx eax"
      using False by (rule filled4_step)
    finally show ?thesis by (simp add: algebra_simps)
  qed
qed

lemma cld_df: "eflags (cld s) AND FL_DF = 0"
  by (simp add: cld_def and.assoc)

lemma mem_cld: "mem (cld s) = mem s"
  by (simp add: cld_def)

lemma mem_stosb: "mem (stosb addr data cnt s) a = (if a - addr < cnt then ucast data else mem s a)"
  by (simp add: stosb_def rep_stosb_mem[OF cld_df] filled_def mem_cld)

lemma mem_stosl:
  "mem (stosl addr data cnt s) a =
     (if unat (a - addr) < 4 * unat cnt then byte_of data (unat (a - addr) mod 4) else mem s a)"
  by (simp add: stosl_def rep_stosl_mem[OF cld_df] filled4_def mem_cld)

lemma bytes_word: 
  "ucast (byte_of w 0) OR push_bit 8 (ucast (byte_of w 1)) OR push_bit 16 (ucast (byte_of w 2))
       OR push_bit 24 (ucast (byte_of w 3)) = w"
  apply (simp add: byte_of_def)
  apply (rule bit_word_eqI)
  subgoal for n
    apply (cases "n < 8"; cases "n < 16"; cases "n < 24")
    apply (auto simp add: bit_simps)
    done
  done

lemma word_offset_in_range:
  assumes "i < unat (cnt::u32)" "k < 4"
  shows "unat (of_nat (4 * i + k) :: u32) < 4 * unat cnt"
    and "unat (of_nat (4 * i + k) :: u32) mod 4 = k"
proof -
  have u: "unat (of_nat (4 * i + k) :: u32) = (4 * i + k) mod 2 ^ 32"
    unfolding unat_of_nat by simp
  have "(4 * i + k) mod 2 ^ 32 \<le> 4 * i + k" by (rule mod_less_eq_dividend)
  also have "\<dots> < 4 * unat cnt" using assms by arith
  finally show "unat (of_nat (4 * i + k) :: u32) < 4 * unat cnt" by (simp only: u)
  have "(4::nat) dvd 2 ^ 32" by simp
  then have "(4 * i + k) mod 2 ^ 32 mod 4 = (4 * i + k) mod 4" by (rule mod_mod_cancel)
  also have "\<dots> = k" using assms by simp
  finally show "unat (of_nat (4 * i + k) :: u32) mod 4 = k" by (simp only: u)
qed

lemma stosl_byte:
  assumes "i < unat cnt" "k < 4"
  shows "mem (stosl addr data cnt s) (addr + 4 * of_nat i + of_nat k) = byte_of data k"
proof -
  have "addr + 4 * of_nat i + of_nat k - addr = (of_nat (4 * i + k) :: u32)" by simp
  then show ?thesis
    using word_offset_in_range[OF assms] by (simp only: mem_stosl if_True)
qed

lemma stosl_word:
  assumes "i < unat cnt"
  shows "load32 (mem (stosl addr data cnt s)) (addr + 4 * of_nat i) = data"
proof -
  let ?a = "addr + 4 * of_nat i"
  let ?m = "mem (stosl addr data cnt s)"
  have "?m ?a = byte_of data 0" using stosl_byte[OF assms, of 0 addr data s] by simp
  moreover have "?m (?a + 1) = byte_of data 1" using stosl_byte[OF assms, of 1 addr data s] by simp
  moreover have "?m (?a + 2) = byte_of data 2" using stosl_byte[OF assms, of 2 addr data s] by simp
  moreover have "?m (?a + 3) = byte_of data 3" using stosl_byte[OF assms, of 3 addr data s] by simp
  ultimately show ?thesis by (simp only: load32_def bytes_word)
qed

lemma stosb_byte:
  assumes "i < unat cnt"
  shows "mem (stosb addr data cnt s) (addr + of_nat i) = ucast data"
proof -
  have "i < 2 ^ 32" using assms unsigned_less[of cnt, where ?'a = nat] by simp
  then have "unat (of_nat i :: u32) = i" unfolding unat_of_nat by simp
  then have "(of_nat i :: u32) < cnt" using assms by (simp add: word_less_nat_alt)
  then show ?thesis by (simp add: mem_stosb)
qed

subsection \<open>Descriptors, flags, port output, truncation\<close>

lemma pd_limit:
  "uint (pd_array p sz ! 0) = (sint sz - 1) mod 2 ^ 16"
proof -
  have "uint (ucast (sz - 1) :: u16) = uint (sz - 1) mod 2 ^ 16"
    by (simp add: unsigned_ucast_eq take_bit_eq_mod)
  also have "\<dots> = ((uint sz - 1) mod 2 ^ 32) mod 2 ^ 16"
    by (simp add: uint_word_ariths)
  also have "\<dots> = (uint sz - 1) mod 2 ^ 16"
    by (simp add: mod_mod_cancel)
  also have "\<dots> = (sint sz - 1) mod 2 ^ 16"
  proof -
    have "uint sz = sint sz mod 2 ^ 32" by (simp add: uint_sint take_bit_eq_mod)
    then have "(uint sz - 1) mod 2 ^ 16 = (sint sz mod 2 ^ 32 - 1) mod 2 ^ 16" by simp
    also have "\<dots> = (sint sz mod 2 ^ 32 mod 2 ^ 16 - 1) mod 2 ^ 16" by (simp add: mod_diff_left_eq)
    also have "\<dots> = (sint sz mod 2 ^ 16 - 1) mod 2 ^ 16" by (simp add: mod_mod_cancel)
    also have "\<dots> = (sint sz - 1) mod 2 ^ 16" by (simp add: mod_diff_left_eq)
    finally show ?thesis .
  qed
  finally show ?thesis by (simp add: pd_array_def)
qed

lemma low16: "(0xFFFF :: u32) = mask 16"
  by (simp add: mask_eq_exp_minus_1)

lemma low8: "(0xFF :: u32) = mask 8"
  by (simp add: mask_eq_exp_minus_1)

lemma pd_base_lo: "pd_array p sz ! 1 = ucast (p AND 0xFFFF)"
  unfolding low16
  apply (simp add: pd_array_def)
  apply (rule bit_word_eqI)
  apply (auto simp add: bit_simps)
  done

lemma pd_base_hi: "pd_array p sz ! 2 = ucast (drop_bit 16 p AND 0xFFFF)"
  unfolding low16
  apply (simp add: pd_array_def)
  apply (rule bit_word_eqI)
  apply (auto simp add: bit_simps)
  done

lemma pseudo_descriptor_base: "snd (pseudo_descriptor (pd_array p sz)) = p"
  apply (simp add: pd_array_def pseudo_descriptor_def)
  apply (rule bit_word_eqI)
  subgoal for n
    apply (cases "n < 16")
    apply (auto simp add: bit_simps)
    done
  done

lemma flag_bits: "FL_IF = 2 ^ 9" "FL_DF = 2 ^ 10" "FL_RF = 2 ^ 16" "FL_VM = 2 ^ 17"
  by (simp_all add: FL_IF_def FL_DF_def FL_RF_def FL_VM_def)

lemma set_flag_and:
  fixes x :: u32
  assumes "i \<noteq> j" "i \<noteq> k" "i < 32"
  shows "((x AND NOT (2 ^ i) OR 2 ^ i) AND NOT (2 ^ j) AND NOT (2 ^ k)) AND 2 ^ i = 2 ^ i"
  apply (rule bit_word_eqI)
  using assms apply (auto simp add: bit_simps)
  done

lemma set_flag_others:
  fixes x :: u32
  shows "((x AND NOT (2 ^ i) OR 2 ^ i) AND NOT (2 ^ j) AND NOT (2 ^ k)) AND NOT (2 ^ i)
       = (x AND NOT (2 ^ j) AND NOT (2 ^ k)) AND NOT (2 ^ i)"
  apply (rule bit_word_eqI)
  apply (auto simp add: bit_simps)
  done

lemma eflags_sti_cli: "eflags (sti (cli s)) = eflags s AND NOT FL_IF OR FL_IF"
  by (simp add: sti_def cli_def)

lemma if_after: "readeflags (sti (cli s)) AND FL_IF = FL_IF"
  unfolding readeflags_def eflags_sti_cli flag_bits
  by (rule set_flag_and) simp_all

lemma others_after: "readeflags (sti (cli s)) AND NOT FL_IF = readeflags s AND NOT FL_IF"
  unfolding readeflags_def eflags_sti_cli flag_bits
  by (rule set_flag_others)

lemma rep_outsl_log:
  "eflags s AND FL_DF = 0 \<Longrightarrow>
   rep_outsl dx esi ecx s =
     (s\<lparr>outlog := outlog s @ map (\<lambda>i. (dx, load32 (mem s) (esi + 4 * of_nat i))) [0..<unat ecx]\<rparr>,
      esi + 4 * ecx, 0)"
proof (induction dx esi ecx s rule: rep_outsl.induct)
  case (1 dx esi ecx s)
  show ?case
  proof (cases "ecx = 0")
    case True
    then show ?thesis by (subst rep_outsl.simps) simp
  next
    case False
    let ?s' = "s\<lparr>outlog := outlog s @ [(dx, load32 (mem s) esi)]\<rparr>"
    let ?f = "\<lambda>i. (dx, load32 (mem s) (esi + 4 * of_nat i))"
    have df: "eflags ?s' AND FL_DF = 0" using "1.prems" by simp
    have adv: "advance s esi 4 = esi + 4" using "1.prems" by (simp add: advance_def)
    have n: "unat ecx = Suc (unat (ecx - 1))"
      using False by (simp add: unat_minus_one unat_gt_0)
    have "rep_outsl dx esi ecx s = rep_outsl dx (advance s esi 4) (ecx - 1) ?s'"
      by (subst rep_outsl.simps) (simp only: False if_False)
    also have "\<dots> = (?s'\<lparr>outlog := outlog ?s' @
          map (\<lambda>i. (dx, load32 (mem ?s') (esi + 4 + 4 * of_nat i))) [0..<unat (ecx - 1)]\<rparr>,
        esi + 4 + 4 * (ecx - 1), 0)"
      using "1.IH"[OF False df] by (simp only: adv)
    also have "outlog ?s' @ map (\<lambda>i. (dx, load32 (mem ?s') (esi + 4 + 4 * of_nat i))) [0..<unat (ecx - 1)]
        = outlog s @ map ?f [0..<unat ecx]"
      unfolding n map_upt_Suc by (simp add: algebra_simps)
    finally show ?thesis by (simp add: algebra_simps)
  qed
qed

lemma smod_low: "(k smod 256) mod 256 = (k::int) mod 256"
proof -
  have "k mod 256 = (k smod 256 + k sdiv 256 * 256) mod 256"
    by (simp only: smod_sdiv_mult_eq)
  then show ?thesis by simp
qed

lemma ucast_low_and: "(ucast (data AND 0xFF :: u32) :: u8) = ucast data"
  unfolding low8
  apply (rule bit_word_eqI)
  apply (auto simp add: bit_simps)
  done

lemma uint_low: "uint (ucast (w :: u32) :: u8) = sint w mod 256"
proof -
  have "uint (ucast w :: u8) = uint w mod 2 ^ 8"
    by (simp add: unsigned_ucast_eq take_bit_eq_mod)
  also have "uint w = sint w mod 2 ^ 32" by (simp add: uint_sint take_bit_eq_mod)
  also have "sint w mod 2 ^ 32 mod 2 ^ 8 = sint w mod 2 ^ 8" by (simp add: mod_mod_cancel)
  finally show ?thesis by simp
qed

lemma ucast_low_int:
  assumes "k mod 256 = sint data mod 256"
  shows "(ucast (word_of_int k :: u32) :: u8) = ucast (data :: u32)"
proof -
  have "uint (ucast (word_of_int k :: u32) :: u8) = uint (word_of_int k :: u32) mod 2 ^ 8"
    by (simp add: unsigned_ucast_eq take_bit_eq_mod)
  also have "\<dots> = k mod 2 ^ 32 mod 2 ^ 8" by (simp add: uint_word_of_int)
  also have "\<dots> = k mod 2 ^ 8" by (simp add: mod_mod_cancel)
  finally have "uint (ucast (word_of_int k :: u32) :: u8) = uint (ucast data :: u8)"
    using assms by (simp add: uint_low)
  then show ?thesis by (simp only: word_uint_eq_iff)
qed

section \<open>The claims\<close>

subsection \<open>Trap frame\<close>

text \<open>
  C1. In \<^verbatim>\<open>struct trapframe\<close> the members lie at fixed byte offsets: \<^verbatim>\<open>edi\<close> 0,
  \<^verbatim>\<open>esi\<close> 4, \<^verbatim>\<open>ebp\<close> 8, \<^verbatim>\<open>oesp\<close> 12, \<^verbatim>\<open>ebx\<close> 16, \<^verbatim>\<open>edx\<close> 20, \<^verbatim>\<open>ecx\<close> 24,
  \<^verbatim>\<open>eax\<close> 28; then the four padded segment selectors fill bytes 32 to 47, and
  \<^verbatim>\<open>trapno\<close> follows them at 48; \<^verbatim>\<open>err\<close> is at 52, right after the four bytes of
  \<^verbatim>\<open>trapno\<close>; \<^verbatim>\<open>eip\<close> at 56; \<^verbatim>\<open>cs\<close> at 60, two bytes, with two bytes of padding
  after it; \<^verbatim>\<open>eflags\<close> at 64; \<^verbatim>\<open>esp\<close> at 68 and \<^verbatim>\<open>ss\<close> at 72, again two bytes
  and two of padding. The struct is 76 bytes long.
\<close>

theorem trapframe_offsets:
  "offsetof trapframe ''edi'' = Some 0 \<and> offsetof trapframe ''esi'' = Some 4
   \<and> offsetof trapframe ''ebp'' = Some 8 \<and> offsetof trapframe ''oesp'' = Some 12
   \<and> offsetof trapframe ''ebx'' = Some 16 \<and> offsetof trapframe ''edx'' = Some 20
   \<and> offsetof trapframe ''ecx'' = Some 24 \<and> offsetof trapframe ''eax'' = Some 28
   \<and> members_between trapframe 32 48 =
        [(''gs'', 32, 2), (''padding1'', 34, 2), (''fs'', 36, 2), (''padding2'', 38, 2),
         (''es'', 40, 2), (''padding3'', 42, 2), (''ds'', 44, 2), (''padding4'', 46, 2)]
   \<and> offsetof trapframe ''trapno'' = Some 48 \<and> field_size trapframe ''trapno'' = Some 4
   \<and> offsetof trapframe ''err'' = Some 52 \<and> field_size trapframe ''err'' = Some 4
   \<and> offsetof trapframe ''eip'' = Some 56
   \<and> members_between trapframe 60 64 = [(''cs'', 60, 2), (''padding5'', 62, 2)]
   \<and> offsetof trapframe ''eflags'' = Some 64
   \<and> offsetof trapframe ''esp'' = Some 68
   \<and> members_between trapframe 72 76 = [(''ss'', 72, 2), (''padding6'', 74, 2)]
   \<and> struct_size trapframe = 76"
  by (simp add: offsetof_def field_size_def members_between_def size_trapframe layout_trapframe)

text \<open>
  C9. The segment-selector block comes right after the register block, which ends at
  byte 32: it is \<^verbatim>\<open>gs\<close>, \<^verbatim>\<open>fs\<close>, \<^verbatim>\<open>es\<close>, \<^verbatim>\<open>ds\<close> in this order at offsets 32,
  36, 40 and 44, each two bytes long and each followed at once by a two-byte padding
  member (at 34, 38, 42, 46), so that every selector has a four-byte slot.
\<close>

theorem selector_block:
  "layout (struct_size trapframe_pusha) (butlast trapframe_rest) =
     [(''gs'', 32, 2), (''padding1'', 34, 2), (''fs'', 36, 2), (''padding2'', 38, 2),
      (''es'', 40, 2), (''padding3'', 42, 2), (''ds'', 44, 2), (''padding4'', 46, 2)]
   \<and> take 8 (drop (length trapframe_pusha) (layout 0 trapframe))
       = layout (struct_size trapframe_pusha) (butlast trapframe_rest)
   \<and> map (offsetof trapframe) [''gs'', ''fs'', ''es'', ''ds''] = [Some 32, Some 36, Some 40, Some 44]
   \<and> map (field_size trapframe) [''gs'', ''fs'', ''es'', ''ds''] = [Some 2, Some 2, Some 2, Some 2]
   \<and> map (offsetof trapframe) [''padding1'', ''padding2'', ''padding3'', ''padding4'']
       = [Some 34, Some 38, Some 42, Some 46]
   \<and> map (field_size trapframe) [''padding1'', ''padding2'', ''padding3'', ''padding4'']
       = [Some 2, Some 2, Some 2, Some 2]"
  by (simp add: offsetof_def field_size_def size_pusha length_pusha layout_selectors layout_trapframe)

text \<open>
  C2, as the claim states it, gives the register block at the start of the trap frame
  seven 32-bit values. The block the source declares has eight.
\<close>

theorem pusha_block_not_seven: "length trapframe_pusha \<noteq> 7"
  by (simp add: trapframe_pusha_def)

text \<open>
  C2, amended. The register block at the start of the trap frame consists of eight
  32-bit values in the fixed order \<^verbatim>\<open>edi\<close>, \<^verbatim>\<open>esi\<close>, \<^verbatim>\<open>ebp\<close>, \<^verbatim>\<open>oesp\<close>, \<^verbatim>\<open>ebx\<close>,
  \<^verbatim>\<open>edx\<close>, \<^verbatim>\<open>ecx\<close>, \<^verbatim>\<open>eax\<close>, at offsets 0 to 28 in steps of four; one of them, the
  saved stack pointer \<^verbatim>\<open>oesp\<close>, is the slot the source marks as ignored.
\<close>

theorem pusha_block:
  "map fst trapframe_pusha = [''edi'', ''esi'', ''ebp'', ''oesp'', ''ebx'', ''edx'', ''ecx'', ''eax'']
   \<and> map snd trapframe_pusha = replicate 8 UInt
   \<and> length trapframe_pusha = 8
   \<and> take 8 (layout 0 trapframe) = layout 0 trapframe_pusha
   \<and> map (fst \<circ> snd) (layout 0 trapframe_pusha) = [0, 4, 8, 12, 16, 20, 24, 28]
   \<and> map (snd \<circ> snd) (layout 0 trapframe_pusha) = replicate 8 4
   \<and> filter (\<lambda>f. fst f \<in> set trapframe_ignored) trapframe_pusha = [(''oesp'', UInt)]"
  by (simp add: layout_trapframe layout_pusha trapframe_ignored_def length_pusha)
     (simp add: trapframe_pusha_def eval_nat_numeral)

subsection \<open>Descriptor-table loads\<close>

text \<open>
  C3. For every size from 1 to 65536 and every 32-bit base \<^verbatim>\<open>p\<close>, \<^verbatim>\<open>lgdt\<close> and
  \<^verbatim>\<open>lidt\<close> build the same record of three 16-bit fields (six bytes): the limit is
  \<^verbatim>\<open>size - 1\<close> modulo \<open>2 ^ 16\<close>, the low base half is \<^verbatim>\<open>p & 0xFFFF\<close>, the high base
  half is \<^verbatim>\<open>(p >> 16) & 0xFFFF\<close>. In that range of sizes the limit is \<^verbatim>\<open>size - 1\<close>
  itself, and the register loaded from the record holds that limit and the base \<^verbatim>\<open>p\<close>.
\<close>

theorem descriptor_encoding:
  assumes "1 \<le> sint sz" and "sint sz \<le> 65536"
  shows "length (pd_array p sz) = 3
    \<and> uint (pd_array p sz ! 0) = (sint sz - 1) mod 2 ^ 16
    \<and> pd_array p sz ! 1 = ucast (p AND 0xFFFF)
    \<and> pd_array p sz ! 2 = ucast (drop_bit 16 p AND 0xFFFF)
    \<and> gdtr (lgdt p sz s) = (pd_array p sz ! 0, p)
    \<and> idtr (lidt p sz s) = (pd_array p sz ! 0, p)
    \<and> uint (fst (gdtr (lgdt p sz s))) = sint sz - 1
    \<and> uint (fst (idtr (lidt p sz s))) = sint sz - 1"
proof -
  have len: "length (pd_array p sz) = 3" by (simp add: pd_array_def)
  have fst_pd: "fst (pseudo_descriptor (pd_array p sz)) = pd_array p sz ! 0"
    by (simp add: pseudo_descriptor_def)
  have pair: "pseudo_descriptor (pd_array p sz) = (pd_array p sz ! 0, p)"
    using fst_pd pseudo_descriptor_base[of p sz] by (simp add: prod_eq_iff)
  have "0 \<le> sint sz - 1" "sint sz - 1 < 2 ^ 16" using assms by simp_all
  then have "(sint sz - 1) mod 2 ^ 16 = sint sz - 1" by (rule mod_pos_pos_trivial)
  then have lim: "uint (pd_array p sz ! 0) = sint sz - 1" by (simp only: pd_limit)
  show ?thesis
    using len lim pd_limit[of p sz] pd_base_lo[of p sz] pd_base_hi[of p sz] pair
    by (simp add: lgdt_def lidt_def)
qed

theorem descriptor_encoding_witness:
  "uint (pd_array 0x80107A40 65536 ! 0) = 65535
   \<and> pd_array 0x80107A40 65536 ! 1 = 0x7A40
   \<and> pd_array 0x80107A40 65536 ! 2 = 0x8010
   \<and> gdtr (lgdt 0x80107A40 65536 machine0) = (0xFFFF, 0x80107A40)
   \<and> uint (fst (idtr (lidt 0x80107A40 65536 machine0))) = 65535"
proof -
  have a: "1 \<le> sint (65536 :: u32)" by simp
  have b: "sint (65536 :: u32) \<le> 65536" by simp
  show ?thesis
    using descriptor_encoding[OF a b, of "0x80107A40" machine0]
    by (simp add: pd_array_def)
qed

subsection \<open>Fills\<close>

lemma stosb_outside:
  assumes "\<forall>i<unat cnt. a \<noteq> addr + of_nat i"
  shows "mem (stosb addr data cnt s) a = mem s a"
proof -
  have "\<not> a - addr < cnt"
  proof
    assume "a - addr < cnt"
    then have "unat (a - addr) < unat cnt" by (simp add: word_less_nat_alt)
    then have "a \<noteq> addr + of_nat (unat (a - addr))" using assms by blast
    then show False by simp
  qed
  then show ?thesis by (simp add: mem_stosb)
qed

lemma stosl_outside:
  assumes "\<forall>j<4 * unat cnt. a \<noteq> addr + of_nat j"
  shows "mem (stosl addr data cnt s) a = mem s a"
proof -
  have "\<not> unat (a - addr) < 4 * unat cnt"
  proof
    assume "unat (a - addr) < 4 * unat cnt"
    then have "a \<noteq> addr + of_nat (unat (a - addr))" using assms by blast
    then show False by simp
  qed
  then show ?thesis by (simp add: mem_stosl)
qed

lemma all_less_2: "(\<forall>i<(2::nat). P i) = (P 0 \<and> P 1)"
  by (simp add: numeral_2_eq_2 All_less_Suc conj_commute)

lemma all_less_4: "(\<forall>i<(4::nat). P i) = (P 0 \<and> P 1 \<and> P 2 \<and> P 3)"
  by (simp add: eval_nat_numeral All_less_Suc conj_ac)

text \<open>
  C4. For every count (\<^verbatim>\<open>ecx\<close> read as an unsigned number, so every count from 0 up):
  after \<^verbatim>\<open>stosb(addr, data, cnt)\<close> each of the \<^verbatim>\<open>cnt\<close> bytes from \<^verbatim>\<open>addr\<close> on holds the
  fill byte, and every byte that is none of them is as before; after
  \<^verbatim>\<open>stosl(addr, data, cnt)\<close> each of the \<^verbatim>\<open>cnt\<close> double words from \<^verbatim>\<open>addr\<close> on, four
  bytes apart, holds \<^verbatim>\<open>data\<close>, and every byte outside the \<^verbatim>\<open>4 * cnt\<close> bytes from
  \<^verbatim>\<open>addr\<close> on is as before; with count 0 neither changes memory. Addresses are taken
  modulo \<open>2 ^ 32\<close>.
\<close>

theorem fill_contract:
  "(\<forall>i<unat cnt. mem (stosb addr data cnt s) (addr + of_nat i) = ucast data)
   \<and> (\<forall>a. (\<forall>i<unat cnt. a \<noteq> addr + of_nat i) \<longrightarrow> mem (stosb addr data cnt s) a = mem s a)
   \<and> (\<forall>i<unat cnt. load32 (mem (stosl addr data cnt s)) (addr + 4 * of_nat i) = data)
   \<and> (\<forall>a. (\<forall>j<4 * unat cnt. a \<noteq> addr + of_nat j) \<longrightarrow> mem (stosl addr data cnt s) a = mem s a)
   \<and> mem (stosb addr data 0 s) = mem s
   \<and> mem (stosl addr data 0 s) = mem s"
proof (intro conjI allI impI)
  fix i assume "i < unat cnt"
  then show "mem (stosb addr data cnt s) (addr + of_nat i) = ucast data" by (rule stosb_byte)
next
  fix a assume "\<forall>i<unat cnt. a \<noteq> addr + of_nat i"
  then show "mem (stosb addr data cnt s) a = mem s a" by (rule stosb_outside)
next
  fix i assume "i < unat cnt"
  then show "load32 (mem (stosl addr data cnt s)) (addr + 4 * of_nat i) = data" by (rule stosl_word)
next
  fix a assume "\<forall>j<4 * unat cnt. a \<noteq> addr + of_nat j"
  then show "mem (stosl addr data cnt s) a = mem s a" by (rule stosl_outside)
next
  show "mem (stosb addr data 0 s) = mem s" by (rule ext) (simp add: mem_stosb)
next
  show "mem (stosl addr data 0 s) = mem s" by (rule ext) (simp add: mem_stosl)
qed

theorem fill_contract_witness:
  "mem (stosb 0x1000 0xDEADBEEF 2 machine0) 0x1001 = 0xEF
   \<and> mem (stosb 0x1000 0xDEADBEEF 2 machine0) 0x1002 = 0
   \<and> load32 (mem (stosl 0x1000 0xDEADBEEF 2 machine0)) 0x1004 = 0xDEADBEEF
   \<and> mem (stosl 0x1000 0xDEADBEEF 1 machine0) 0x1004 = 0
   \<and> mem (stosb 0x1000 0xDEADBEEF 0 machine0) = mem machine0"
proof -
  note f = fill_contract[where cnt = 2 and addr = "0x1000" and data = "0xDEADBEEF" and s = machine0]
  note g = fill_contract[where cnt = 1 and addr = "0x1000" and data = "0xDEADBEEF" and s = machine0]
  have one: "(1::nat) < unat (2 :: u32)" by simp
  have "mem (stosb 0x1000 0xDEADBEEF 2 machine0) (0x1000 + of_nat 1) = ucast (0xDEADBEEF :: u32)"
    using f one by blast
  then have w1: "mem (stosb 0x1000 0xDEADBEEF 2 machine0) 0x1001 = 0xEF" by simp
  have u2: "unat (2 :: u32) = 2" and u1: "4 * unat (1 :: u32) = 4" by simp_all
  have out: "\<forall>i<unat (2 :: u32). (0x1002 :: u32) \<noteq> 0x1000 + of_nat i"
    unfolding u2 all_less_2 by simp
  have "mem (stosb 0x1000 0xDEADBEEF 2 machine0) 0x1002 = mem machine0 0x1002"
    using f out by blast
  then have w2: "mem (stosb 0x1000 0xDEADBEEF 2 machine0) 0x1002 = 0" by (simp add: machine0_def)
  have "load32 (mem (stosl 0x1000 0xDEADBEEF 2 machine0)) (0x1000 + 4 * of_nat 1) = 0xDEADBEEF"
    using f one by blast
  then have w3: "load32 (mem (stosl 0x1000 0xDEADBEEF 2 machine0)) 0x1004 = 0xDEADBEEF" by simp
  have out4: "\<forall>j<4 * unat (1 :: u32). (0x1004 :: u32) \<noteq> 0x1000 + of_nat j"
    unfolding u1 all_less_4 by simp
  have "mem (stosl 0x1000 0xDEADBEEF 1 machine0) 0x1004 = mem machine0 0x1004"
    using g out4 by blast
  then have w4: "mem (stosl 0x1000 0xDEADBEEF 1 machine0) 0x1004 = 0" by (simp add: machine0_def)
  have w5: "mem (stosb 0x1000 0xDEADBEEF 0 machine0) = mem machine0" using f by blast
  show ?thesis using w1 w2 w3 w4 w5 by blast
qed

subsection \<open>Interrupt flag\<close>

text \<open>
  C5, as the claim states it, has \<^verbatim>\<open>cli\<close> then \<^verbatim>\<open>sti\<close> restore the interrupt-enable
  bit from every initial state. From a state with the bit clear the pair leaves it set.
\<close>

theorem cli_sti_clear_flag_not_restored:
  "readeflags (sti (cli machine0)) AND FL_IF \<noteq> readeflags machine0 AND FL_IF"
  by (simp add: readeflags_def sti_def cli_def FL_IF_def FL_VM_def FL_RF_def machine0_def)

text \<open>
  C5, amended. From every initial state, \<^verbatim>\<open>cli\<close> followed at once by \<^verbatim>\<open>sti\<close> leaves the
  interrupt-enable bit, as \<^verbatim>\<open>readeflags\<close> returns it, set, and every other bit that
  \<^verbatim>\<open>readeflags\<close> returns as it was; so the pair restores the bit to its value from before
  the \<^verbatim>\<open>cli\<close> whenever that value was set.
\<close>

theorem cli_sti_sets_flag:
  "readeflags (sti (cli s)) AND FL_IF = FL_IF
   \<and> (readeflags s AND FL_IF = FL_IF
        \<longrightarrow> readeflags (sti (cli s)) AND FL_IF = readeflags s AND FL_IF)
   \<and> readeflags (sti (cli s)) AND NOT FL_IF = readeflags s AND NOT FL_IF"
  using if_after[of s] others_after[of s] by simp

theorem cli_sti_sets_flag_witness:
  "readeflags (machine0\<lparr>eflags := 0x202\<rparr>) AND FL_IF = FL_IF
   \<and> readeflags (sti (cli (machine0\<lparr>eflags := 0x202\<rparr>))) AND FL_IF
       = readeflags (machine0\<lparr>eflags := 0x202\<rparr>) AND FL_IF"
proof -
  have pre: "readeflags (machine0\<lparr>eflags := 0x202\<rparr>) AND FL_IF = FL_IF"
    by (simp add: readeflags_def FL_IF_def FL_VM_def FL_RF_def)
  then show ?thesis
    using cli_sti_sets_flag[of "machine0\<lparr>eflags := 0x202\<rparr>"] by blast
qed

subsection \<open>Exchange\<close>

lemma store32_outside:
  assumes "a \<notin> {addr, addr + 1, addr + 2, addr + 3}"
  shows "store32 m addr w a = m a"
  using assms by (simp add: store32_def)

text \<open>
  C6. For every address and every new value, \<^verbatim>\<open>xchg(addr, newval)\<close> returns the double
  word that the location held before the call and leaves \<^verbatim>\<open>newval\<close> in it, in one step;
  no byte outside the four of the location changes, nor does anything else of the state.
\<close>

theorem xchg_contract:
  "fst (xchg addr newval s) = load32 (mem s) addr
   \<and> load32 (mem (snd (xchg addr newval s))) addr = newval
   \<and> (\<forall>a. a \<notin> {addr, addr + 1, addr + 2, addr + 3}
          \<longrightarrow> mem (snd (xchg addr newval s)) a = mem s a)
   \<and> snd (xchg addr newval s) = s\<lparr>mem := mem (snd (xchg addr newval s))\<rparr>"
  by (simp add: xchg_def load32_store32 store32_outside)

theorem xchg_contract_witness:
  "fst (xchg 0x2000 1 machine0) = 0
   \<and> load32 (mem (snd (xchg 0x2000 1 machine0))) 0x2000 = 1
   \<and> mem (snd (xchg 0x2000 1 machine0)) 0x2004 = 0
   \<and> fst (xchg 0x2000 0 (snd (xchg 0x2000 1 machine0))) = 1"
proof -
  note x = xchg_contract[of "0x2000" 1 machine0]
  note y = xchg_contract[of "0x2000" 0 "snd (xchg 0x2000 1 machine0)"]
  have out: "(0x2004 :: u32) \<notin> {0x2000, 0x2000 + 1, 0x2000 + 2, 0x2000 + 3}" by simp
  have "mem (snd (xchg 0x2000 1 machine0)) 0x2004 = mem machine0 0x2004" using x out by blast
  then have w3: "mem (snd (xchg 0x2000 1 machine0)) 0x2004 = 0" by (simp add: machine0_def)
  have "fst (xchg 0x2000 1 machine0) = load32 (mem machine0) 0x2000" using x by blast
  then have w1: "fst (xchg 0x2000 1 machine0) = 0" by (simp add: machine0_def load32_def)
  have w2: "load32 (mem (snd (xchg 0x2000 1 machine0))) 0x2000 = 1" using x by blast
  have "fst (xchg 0x2000 0 (snd (xchg 0x2000 1 machine0)))
      = load32 (mem (snd (xchg 0x2000 1 machine0))) 0x2000" using y by blast
  then have w4: "fst (xchg 0x2000 0 (snd (xchg 0x2000 1 machine0))) = 1" using w2 by simp
  show ?thesis using w1 w2 w3 w4 by blast
qed

subsection \<open>Port output\<close>

lemma outsl_state:
  "outsl port addr cnt s =
     (cld s)\<lparr>outlog := outlog s @
        map (\<lambda>i. (ucast port, load32 (mem s) (addr + 4 * of_nat i))) [0..<unat cnt]\<rparr>"
  by (simp add: outsl_def rep_outsl_log[OF cld_df] mem_cld) (simp add: cld_def)

text \<open>
  C8. For every port, source address and count, \<^verbatim>\<open>outsl(port, addr, cnt)\<close> leaves all of
  memory, the source range included, as it was, and sends to the port (the low 16 bits of
  \<^verbatim>\<open>port\<close>) the double words read at \<^verbatim>\<open>addr\<close>, \<^verbatim>\<open>addr + 4\<close>, ... in this order, as
  many as \<^verbatim>\<open>ecx\<close> counts: \<^verbatim>\<open>cnt\<close> of them for every \<^verbatim>\<open>cnt\<close> that is not negative.
\<close>

theorem outsl_contract:
  "mem (outsl port addr cnt s) = mem s
   \<and> outlog (outsl port addr cnt s) =
       outlog s @ map (\<lambda>i. (ucast port, load32 (mem s) (addr + 4 * of_nat i))) [0..<unat cnt]
   \<and> (0 \<le> sint cnt \<longrightarrow>
        length (outlog (outsl port addr cnt s)) = length (outlog s) + nat (sint cnt))"
proof -
  have "unat cnt = nat (sint cnt)" if "0 \<le> sint cnt"
  proof -
    have "sint cnt < 2 ^ 32" using sint_lt[of cnt] by simp
    then have "sint cnt mod 2 ^ 32 = sint cnt" using that by (simp add: mod_pos_pos_trivial)
    moreover have "uint cnt = sint cnt mod 2 ^ 32" by (simp add: uint_sint take_bit_eq_mod)
    ultimately have "uint cnt = sint cnt" by simp
    then show ?thesis by (simp add: unat_eq_nat_uint)
  qed
  then show ?thesis by (simp add: outsl_state mem_cld)
qed

theorem outsl_contract_witness:
  "mem (outsl 0x1F0 0x3000 2 (machine0\<lparr>mem := store32 (\<lambda>a. 0) 0x3004 0xCAFEBABE\<rparr>))
     = store32 (\<lambda>a. 0) 0x3004 0xCAFEBABE
   \<and> outlog (outsl 0x1F0 0x3000 2 (machine0\<lparr>mem := store32 (\<lambda>a. 0) 0x3004 0xCAFEBABE\<rparr>))
     = [(0x1F0, 0), (0x1F0, 0xCAFEBABE)]
   \<and> length (outlog (outsl 0x1F0 0x3000 2
        (machine0\<lparr>mem := store32 (\<lambda>a. 0) 0x3004 0xCAFEBABE\<rparr>))) = 2"
proof -
  let ?s = "machine0\<lparr>mem := store32 (\<lambda>a. 0) 0x3004 0xCAFEBABE\<rparr>"
  note t = outsl_contract[of "0x1F0" "0x3000" 2 ?s]
  have nn: "0 \<le> sint (2 :: u32)" by simp
  have u: "unat (2 :: u32) = 2" by simp
  have up: "[0..<(2::nat)] = [0, 1]" by (simp add: upt_rec)
  have ms: "mem ?s = store32 (\<lambda>a. 0) 0x3004 0xCAFEBABE" by simp
  have w0: "load32 (store32 (\<lambda>a. 0) 0x3004 0xCAFEBABE) 0x3000 = 0"
    by (simp add: load32_def store32_def)
  have w1: "load32 (store32 (\<lambda>a. 0) 0x3004 0xCAFEBABE) 0x3004 = 0xCAFEBABE"
    by (rule load32_store32)
  have m: "mem (outsl 0x1F0 0x3000 2 ?s) = mem ?s" using t by blast
  have "outlog (outsl 0x1F0 0x3000 2 ?s) = outlog ?s @
      map (\<lambda>i. (ucast (0x1F0 :: u32), load32 (mem ?s) (0x3000 + 4 * of_nat i))) [0..<unat (2 :: u32)]"
    using t by blast
  then have l: "outlog (outsl 0x1F0 0x3000 2 ?s) = [(0x1F0, 0), (0x1F0, 0xCAFEBABE)]"
    unfolding u up ms by (simp add: w0 w1 machine0_def)
  have "length (outlog (outsl 0x1F0 0x3000 2 ?s)) = length (outlog ?s) + nat (sint (2 :: u32))"
    using t nn by blast
  then have n: "length (outlog (outsl 0x1F0 0x3000 2 ?s)) = 2" by (simp add: machine0_def)
  show ?thesis using m l n by simp
qed

subsection \<open>Truncation of the fill byte\<close>

text \<open>
  C10. \<^verbatim>\<open>stosb\<close> stores only the least significant byte of its \<^verbatim>\<open>int\<close> argument:
  for every \<^verbatim>\<open>data\<close>, \<^verbatim>\<open>addr\<close> and \<^verbatim>\<open>cnt\<close> the call yields the same state as the call
  with \<^verbatim>\<open>data\<close> reduced modulo 256, be that \<^verbatim>\<open>data & 0xFF\<close>, the mathematical
  residue of the signed value, or C's remainder \<^verbatim>\<open>data % 256\<close>; and each byte it writes
  is that residue.
\<close>

theorem stosb_truncates:
  "stosb addr data cnt s = stosb addr (data AND 0xFF) cnt s
   \<and> stosb addr data cnt s = stosb addr (word_of_int (sint data mod 256)) cnt s
   \<and> stosb addr data cnt s = stosb addr (word_of_int (sint data smod 256)) cnt s
   \<and> mem (stosb addr data cnt s) a =
       (if a - addr < cnt then word_of_int (sint data mod 256) else mem s a)"
proof -
  have "(word_of_int (sint data mod 256) :: u8) = ucast data"
    by (simp only: uint_low[symmetric] word_of_int_uint)
  then show ?thesis
    by (simp add: stosb_def ucast_low_and ucast_low_int smod_low mem_stosb[unfolded stosb_def])
qed

theorem stosb_truncates_witness:
  "stosb 0x1000 0xFFFFFF41 3 machine0 = stosb 0x1000 0x41 3 machine0
   \<and> mem (stosb 0x1000 0xFFFFFF41 3 machine0) 0x1002 = 0x41
   \<and> mem (stosb 0x1000 0xFFFFFF41 3 machine0) 0x1003 = 0"
proof -
  note t2 = stosb_truncates[of "0x1000" "0xFFFFFF41" 3 machine0 "0x1002"]
  note t3 = stosb_truncates[of "0x1000" "0xFFFFFF41" 3 machine0 "0x1003"]
  have low: "(0xFFFFFF41 :: u32) AND 0xFF = 0x41" by simp
  have res: "(word_of_int (sint (0xFFFFFF41 :: u32) mod 256) :: u8) = 0x41" by simp
  have "stosb 0x1000 0xFFFFFF41 3 machine0 = stosb 0x1000 (0xFFFFFF41 AND 0xFF) 3 machine0"
    using t2 by blast
  then have w1: "stosb 0x1000 0xFFFFFF41 3 machine0 = stosb 0x1000 0x41 3 machine0"
    by (simp only: low)
  have "mem (stosb 0x1000 0xFFFFFF41 3 machine0) 0x1002 =
      (if (0x1002 :: u32) - 0x1000 < 3 then word_of_int (sint (0xFFFFFF41 :: u32) mod 256)
       else mem machine0 0x1002)"
    using t2 by blast
  then have w2: "mem (stosb 0x1000 0xFFFFFF41 3 machine0) 0x1002 = 0x41"
    unfolding res by simp
  have "mem (stosb 0x1000 0xFFFFFF41 3 machine0) 0x1003 =
      (if (0x1003 :: u32) - 0x1000 < 3 then word_of_int (sint (0xFFFFFF41 :: u32) mod 256)
       else mem machine0 0x1003)"
    using t3 by blast
  then have w3: "mem (stosb 0x1000 0xFFFFFF41 3 machine0) 0x1003 = 0"
    unfolding res by (simp add: machine0_def)
  show ?thesis using w1 w2 w3 by blast
qed

end
